theory Spec2Isabelle
  imports Main
begin

section \<open>Data model of the mock endpoint (backend/main.py, backend/queue_manager.py)\<close>

text \<open>
  JSON values as Python holds them after parsing. An object is the list of its items;
  a lookup takes the item stored under the key.
\<close>

datatype json =
    JNull
  | JBool bool
  | JNum int
  | JStr string
  | JArr "json list"
  | JObj "(string \<times> json) list"

text \<open>The exceptions the modelled code raises or lets through.\<close>

datatype exn =
    KeyError string
  | TypeError
  | AttributeError
  | JSONDecodeError
  | RuntimeError
  | WebSocketDisconnect
  | CancelledError
  | TimeoutError

text \<open>
  \<^verbatim>\<open>request_obj\<close> of \<^verbatim>\<open>handle_completion\<close> (main.py, lines 272-282): the dict
  with the keys id, ip, port, method, path, headers, body, timestamp, status.
\<close>

record request_obj =
  rq_id :: string
  rq_ip :: string
  rq_port :: int
  rq_method :: string
  rq_path :: string
  rq_headers :: "(string \<times> string) list"
  rq_body :: json
  rq_timestamp :: string
  rq_status :: string

text \<open>
  An asyncio future: pending, holding the pair \<^verbatim>\<open>(response_data, status_code)\<close> given
  to \<^verbatim>\<open>set_result\<close>, holding the exception given to \<^verbatim>\<open>set_exception\<close>, or cancelled
  (what \<^verbatim>\<open>asyncio.wait_for\<close> does to it when the timeout elapses).
\<close>

datatype future =
    FPending
  | FResult json json
  | FException exn
  | FCancelled

fun is_done :: "future \<Rightarrow> bool" where
  "is_done FPending = False"
| "is_done _ = True"

text \<open>
  The messages sent to the consoles with \<^verbatim>\<open>send_json\<close>:
  \<^item> \<open>NewRequest r\<close> is \<^verbatim>\<open>{"type": "new_request", "data": r}\<close>;
  \<^item> \<open>CompletedRequest i ip port body response status_code\<close> is the
    \<^verbatim>\<open>completed_request\<close> message with these data fields;
  \<^item> \<open>QueueEvent t ip\<close> is \<^verbatim>\<open>{"type": t}\<close>, with the key ip when one is given;
  \<^item> \<open>BypassRequest i client_ip request_body\<close> and
    \<open>BypassResponse i status_code response_body success\<close> are the two messages of
    \<^verbatim>\<open>handle_bypass_request\<close> (their clock readings and the target URL are left out).
\<close>

datatype event =
    NewRequest request_obj
  | CompletedRequest json string int json json json
  | QueueEvent string "string option"
  | BypassRequest string string json
  | BypassResponse string json json bool

text \<open>An item of a preset queue (queue_manager.py, lines 48-53).\<close>

record preset_item =
  pi_id :: string
  pi_response :: json
  pi_status_code :: json
  pi_created_at :: nat

text \<open>
  The process state: the globals of main.py, the queues of the
  \<^verbatim>\<open>PresetQueueManager\<close>, the enabled flag of the bypass configuration, and the
  part of the environment the code acts on:
  \<^item> \<open>websocket_clients\<close> is the set of connected sockets, as the list in which a
    \<^verbatim>\<open>for\<close> loop over the set visits them (sockets are numbered);
  \<^item> \<open>send_fault w = Some e\<close> says that \<^verbatim>\<open>send_json\<close> on socket \<open>w\<close> raises \<open>e\<close>;
  \<^item> \<open>sent\<close> lists the messages delivered so far, oldest first, each with its socket.
\<close>

record state =
  pending_requests :: "request_obj list"
  current_request :: "request_obj option"
  request_futures :: "string \<rightharpoonup> future"
  websocket_clients :: "nat list"
  send_fault :: "nat \<rightharpoonup> exn"
  sent :: "(nat \<times> event) list"
  preset_queues :: "string \<rightharpoonup> preset_item list"
  bypass_enabled :: bool

section \<open>Sending to the consoles\<close>

definition send_json :: "state \<Rightarrow> nat \<Rightarrow> event \<Rightarrow> exn option \<times> state" where
  "send_json s w ev =
     (case send_fault s w of
        Some e \<Rightarrow> (Some e, s)
      | None \<Rightarrow> (None, s\<lparr>sent := sent s @ [(w, ev)]\<rparr>))"

text \<open>
  \<^verbatim>\<open>broadcast_websocket\<close> (main.py, lines 85-101): every socket is tried, a socket
  whose send raises is collected, and the collected sockets leave the set at the end.
\<close>

fun broadcast_loop :: "event \<Rightarrow> nat list \<Rightarrow> state \<Rightarrow> nat list \<Rightarrow> state \<times> nat list" where
  "broadcast_loop ev [] s disconnected = (s, disconnected)"
| "broadcast_loop ev (w # ws) s disconnected =
     (case send_json s w ev of
        (Some e, s') \<Rightarrow> broadcast_loop ev ws s' (w # disconnected)
      | (None, s') \<Rightarrow> broadcast_loop ev ws s' disconnected)"

definition broadcast_websocket :: "state \<Rightarrow> event \<Rightarrow> state" where
  "broadcast_websocket s ev =
     (case broadcast_loop ev (websocket_clients s) s [] of
        (s', disconnected) \<Rightarrow>
          s'\<lparr>websocket_clients :=
               filter (\<lambda>w. w \<notin> set disconnected) (websocket_clients s')\<rparr>)"

definition broadcast_queue_update :: "state \<Rightarrow> string \<Rightarrow> string \<Rightarrow> state" where
  "broadcast_queue_update s event_type ip =
     broadcast_websocket s (QueueEvent event_type (if ip = [] then None else Some ip))"

text \<open>
  The loop \<^verbatim>\<open>for ws in websocket_clients: await ws.send_json(...)\<close> with no
  \<^verbatim>\<open>try\<close> around the send (main.py, lines 325-329 and 372-373): the first send that
  raises ends the loop, and the exception leaves the enclosing function.
\<close>

fun send_each :: "event \<Rightarrow> nat list \<Rightarrow> state \<Rightarrow> exn option \<times> state" where
  "send_each ev [] s = (None, s)"
| "send_each ev (w # ws) s =
     (case send_json s w ev of
        (Some e, s') \<Rightarrow> (Some e, s')
      | (None, s') \<Rightarrow> send_each ev ws s')"

text \<open>
  The loop of the preset path (main.py, lines 260-264): every socket is tried, a failure
  is logged, and no socket leaves the set.
\<close>

fun send_logged :: "event \<Rightarrow> nat list \<Rightarrow> state \<Rightarrow> state" where
  "send_logged ev [] s = s"
| "send_logged ev (w # ws) s = send_logged ev ws (snd (send_json s w ev))"

section \<open>The coordinator\<close>

text \<open>\<^verbatim>\<open>process_next_request\<close> (main.py, lines 317-329).\<close>

definition process_next_request :: "state \<Rightarrow> exn option \<times> state" where
  "process_next_request s =
     (if current_request s \<noteq> None then (None, s)
      else (case pending_requests s of
        [] \<Rightarrow> (None, s)
      | r # q \<Rightarrow>
          (let s1 = s\<lparr>current_request := Some r, pending_requests := q\<rparr>
           in send_each (NewRequest r) (websocket_clients s1) s1)))"

text \<open>\<^verbatim>\<open>_cleanup_current_request\<close> (main.py, lines 142-151).\<close>

definition cleanup_current_request :: "state \<Rightarrow> string \<Rightarrow> exn option \<times> state" where
  "cleanup_current_request s req_id =
     (case current_request s of
        None \<Rightarrow> (None, s)
      | Some r \<Rightarrow>
          if rq_id r = req_id then process_next_request (s\<lparr>current_request := None\<rparr>)
          else (None, s))"

text \<open>
  One pass of the poll loop of \<^verbatim>\<open>_check_client_disconnect\<close> that finds the caller
  gone (main.py, lines 130-136).
\<close>

definition check_client_disconnect :: "state \<Rightarrow> string \<Rightarrow> state" where
  "check_client_disconnect s req_id =
     (case request_futures s req_id of
        None \<Rightarrow> s
      | Some f \<Rightarrow>
          if \<not> is_done f
          then s\<lparr>request_futures := (request_futures s)(req_id \<mapsto> FException CancelledError)\<rparr>
          else s)"

subsection \<open>An operator message\<close>

text \<open>\<^verbatim>\<open>msg[k]\<close>: a missing key raises KeyError, a value that is no dict TypeError.\<close>

fun subscript :: "json \<Rightarrow> string \<Rightarrow> exn + json" where
  "subscript (JObj kvs) k =
     (case map_of kvs k of None \<Rightarrow> Inl (KeyError k) | Some v \<Rightarrow> Inr v)"
| "subscript _ k = Inl TypeError"

text \<open>\<^verbatim>\<open>msg.get(k, default)\<close>.\<close>

fun dict_get :: "json \<Rightarrow> string \<Rightarrow> json \<Rightarrow> exn + json" where
  "dict_get (JObj kvs) k d = (case map_of kvs k of None \<Rightarrow> Inr d | Some v \<Rightarrow> Inr v)"
| "dict_get _ k d = Inl AttributeError"

text \<open>
  \<^verbatim>\<open>request_futures.get(req_id)\<close>: the keys of the table are strings, so only a string
  finds an entry; a list or a dict is unhashable and raises TypeError. The key is
  returned with the future.
\<close>

fun futures_get :: "(string \<rightharpoonup> future) \<Rightarrow> json \<Rightarrow> exn + (string \<times> future) option" where
  "futures_get m (JStr k) = (case m k of None \<Rightarrow> Inr None | Some f \<Rightarrow> Inr (Some (k, f)))"
| "futures_get m (JArr xs) = Inl TypeError"
| "futures_get m (JObj kvs) = Inl TypeError"
| "futures_get m _ = Inr None"

text \<open>
  Lines 356-376 of \<^verbatim>\<open>websocket_endpoint\<close>: the future under \<open>key\<close> gets its result,
  the completed_request message is built from the fields of \<^verbatim>\<open>current_request\<close>
  (subscripting None raises TypeError) and sent to every socket, \<^verbatim>\<open>current_request\<close>
  is set to None and \<^verbatim>\<open>process_next_request\<close> is called.
\<close>

definition complete_request :: "state \<Rightarrow> string \<Rightarrow> json \<Rightarrow> json \<Rightarrow> json \<Rightarrow> exn option \<times> state" where
  "complete_request s key req_id response_data status_code =
     (let s1 = s\<lparr>request_futures := (request_futures s)(key \<mapsto> FResult response_data status_code)\<rparr>
      in case current_request s1 of
           None \<Rightarrow> (Some TypeError, s1)
         | Some cur \<Rightarrow>
             (case send_each
                     (CompletedRequest req_id (rq_ip cur) (rq_port cur) (rq_body cur)
                        response_data status_code)
                     (websocket_clients s1) s1 of
                (Some e, s2) \<Rightarrow> (Some e, s2)
              | (None, s2) \<Rightarrow> process_next_request (s2\<lparr>current_request := None\<rparr>)))"

text \<open>The body of the receive loop for one received message (main.py, lines 348-376).\<close>

definition on_message :: "state \<Rightarrow> json \<Rightarrow> exn option \<times> state" where
  "on_message s msg =
     (case subscript msg ''type'' of
        Inl e \<Rightarrow> (Some e, s)
      | Inr t \<Rightarrow>
          (if t \<noteq> JStr ''send_response'' then (None, s)
           else (case subscript msg ''id'' of
              Inl e \<Rightarrow> (Some e, s)
            | Inr req_id \<Rightarrow>
                (case dict_get msg ''status_code'' (JNum 200) of
                   Inl e \<Rightarrow> (Some e, s)
                 | Inr status_code \<Rightarrow>
                     (case subscript msg ''response'' of
                        Inl e \<Rightarrow> (Some e, s)
                      | Inr response_data \<Rightarrow>
                          (case futures_get (request_futures s) req_id of
                             Inl e \<Rightarrow> (Some e, s)
                           | Inr None \<Rightarrow> (None, s)
                           | Inr (Some (key, f)) \<Rightarrow>
                               (if is_done f then (None, s)
                                else complete_request s key req_id response_data
                                       status_code)))))))"

text \<open>
  What a socket hands to \<^verbatim>\<open>receive_json\<close>: a frame that parses to a JSON value, a
  frame that does not parse, or the end of the connection.
\<close>

datatype ws_input = Frame json | BadFrame | Disconnected

fun receive_json :: "ws_input \<Rightarrow> exn + json" where
  "receive_json (Frame j) = Inr j"
| "receive_json BadFrame = Inl JSONDecodeError"
| "receive_json Disconnected = Inl WebSocketDisconnect"

text \<open>
  How the receive loop of a socket stands: still waiting in \<^verbatim>\<open>receive_json\<close>, ended
  by the \<^verbatim>\<open>except WebSocketDisconnect\<close> clause, or left by an exception that no clause
  catches.
\<close>

datatype connection = Listening | Closed | Crashed exn

text \<open>
  An exception inside the \<^verbatim>\<open>try\<close> of \<^verbatim>\<open>websocket_endpoint\<close> (main.py, lines
  345-379): only WebSocketDisconnect is caught, and its clause removes the socket from
  the set (\<^verbatim>\<open>set.remove\<close> raises KeyError when the socket is not in it).
\<close>

definition on_exception :: "nat \<Rightarrow> exn \<Rightarrow> state \<Rightarrow> connection \<times> state" where
  "on_exception ws e s =
     (if e = WebSocketDisconnect
      then (if ws \<in> set (websocket_clients s)
            then (Closed, s\<lparr>websocket_clients := removeAll ws (websocket_clients s)\<rparr>)
            else (Crashed (KeyError ''ws''), s))
      else (Crashed e, s))"

text \<open>The receive loop of socket \<open>ws\<close>, run on the inputs that arrive in order.\<close>

fun receive_loop :: "nat \<Rightarrow> ws_input list \<Rightarrow> state \<Rightarrow> connection \<times> state" where
  "receive_loop ws [] s = (Listening, s)"
| "receive_loop ws (i # inputs) s =
     (case receive_json i of
        Inl e \<Rightarrow> on_exception ws e s
      | Inr msg \<Rightarrow>
          (case on_message s msg of
             (Some e, s') \<Rightarrow> on_exception ws e s'
           | (None, s') \<Rightarrow> receive_loop ws inputs s'))"

text \<open>
  \<^verbatim>\<open>resolve(request_id, response_body, status_code)\<close> of the specification is the
  operator message \<^verbatim>\<open>{type: "send_response", id, status_code, response}\<close>.
\<close>

definition send_response_msg :: "string \<Rightarrow> json \<Rightarrow> json \<Rightarrow> json" where
  "send_response_msg req_id response_data status_code =
     JObj [(''type'', JStr ''send_response''), (''id'', JStr req_id),
           (''status_code'', status_code), (''response'', response_data)]"

definition resolve :: "state \<Rightarrow> string \<Rightarrow> json \<Rightarrow> json \<Rightarrow> exn option \<times> state" where
  "resolve s req_id response_data status_code =
     on_message s (send_response_msg req_id response_data status_code)"

section \<open>The preset queues (backend/queue_manager.py)\<close>

text \<open>
  \<^verbatim>\<open>PresetQueueManager.check_and_pop\<close> (lines 59-75), on the dict of the queues: the
  answer and the dict afterwards. The write to the persistence file runs in a task of
  its own and touches no queue.
\<close>

definition check_and_pop ::
  "(string \<rightharpoonup> preset_item list) \<Rightarrow> string \<Rightarrow> (json \<times> json) option \<times> (string \<rightharpoonup> preset_item list)" where
  "check_and_pop queues ip =
     (case queues ip of
        None \<Rightarrow> (None, queues)
      | Some [] \<Rightarrow> (None, queues)
      | Some (preset_item # rest) \<Rightarrow>
          (Some (pi_response preset_item, pi_status_code preset_item), queues(ip \<mapsto> rest)))"

section \<open>The endpoint \<^verbatim>\<open>handle_completion\<close> (main.py, lines 228-314)\<close>

datatype http_response = JSONResponse json json

text \<open>
  What one call reads from outside the process state: the parsed body, the caller's
  address, the headers, the two identifiers drawn with \<^verbatim>\<open>uuid.uuid4()\<close> (one in
  \<^verbatim>\<open>handle_completion\<close>, one in \<^verbatim>\<open>handle_bypass_request\<close>), the reading of
  the loop clock, and what \<^verbatim>\<open>bypass_handler.forward_request\<close> answers when it is
  called: the upstream body and status, or the message of the BypassError it raises.
\<close>

record incoming =
  in_body :: json
  in_client_ip :: string
  in_client_port :: int
  in_headers :: "(string \<times> string) list"
  in_req_id :: string
  in_bypass_id :: string
  in_timestamp :: string
  in_upstream :: "string + (json \<times> json)"

text \<open>\<^verbatim>\<open>handle_bypass_request\<close> (main.py, lines 154-225).\<close>

definition handle_bypass_request :: "state \<Rightarrow> incoming \<Rightarrow> http_response \<times> state" where
  "handle_bypass_request s i =
     (let s1 = broadcast_websocket s
                 (BypassRequest (in_bypass_id i) (in_client_ip i) (in_body i))
      in case in_upstream i of
           Inr (response_body, status_code) \<Rightarrow>
             (JSONResponse response_body status_code,
              broadcast_websocket s1
                (BypassResponse (in_bypass_id i) status_code response_body True))
         | Inl message \<Rightarrow>
             (JSONResponse (JObj [(''error'', JStr message)]) (JNum 502),
              broadcast_websocket s1
                (BypassResponse (in_bypass_id i) (JNum 502)
                   (JObj [(''error'', JStr message)]) False)))"

definition make_request :: "incoming \<Rightarrow> request_obj" where
  "make_request i =
     \<lparr>rq_id = in_req_id i, rq_ip = in_client_ip i, rq_port = in_client_port i,
      rq_method = ''POST'', rq_path = ''/v1/completions'', rq_headers = in_headers i,
      rq_body = in_body i, rq_timestamp = in_timestamp i, rq_status = ''pending''\<rparr>"

text \<open>
  Lines 269-286: the future is created and stored under the request's id, the request
  is put at the end of \<^verbatim>\<open>pending_requests\<close>, and \<^verbatim>\<open>process_next_request\<close> is
  called.
\<close>

definition submit :: "state \<Rightarrow> request_obj \<Rightarrow> exn option \<times> state" where
  "submit s r =
     process_next_request
       (s\<lparr>request_futures := (request_futures s)(rq_id r \<mapsto> FPending),
          pending_requests := pending_requests s @ [r]\<rparr>)"

text \<open>
  How far a call gets before it first waits: it has answered, it waits on its future, or
  an exception has left it.
\<close>

datatype progress = Responded http_response | Suspended | Failed exn

text \<open>Lines 229-286: the three strategies in the order the code tries them.\<close>

definition handle_completion :: "state \<Rightarrow> incoming \<Rightarrow> progress \<times> state" where
  "handle_completion s i =
     (if bypass_enabled s
      then (case handle_bypass_request s i of (resp, s') \<Rightarrow> (Responded resp, s'))
      else (case check_and_pop (preset_queues s) (in_client_ip i) of
        (Some (response_data, status_code), queues') \<Rightarrow>
          (let s1 = s\<lparr>preset_queues := queues'\<rparr>;
               s2 = broadcast_queue_update s1 ''queue_updated'' (in_client_ip i);
               s3 = send_logged
                      (CompletedRequest (JStr (in_req_id i)) (in_client_ip i)
                         (in_client_port i) (in_body i) response_data status_code)
                      (websocket_clients s2) s2
           in (Responded (JSONResponse response_data status_code), s3))
      | (None, queues') \<Rightarrow>
          (case submit (s\<lparr>preset_queues := queues'\<rparr>) (make_request i) of
             (Some e, s') \<Rightarrow> (Failed e, s')
           | (None, s') \<Rightarrow> (Suspended, s'))))"

text \<open>
  \<^verbatim>\<open>asyncio.wait_for(future, timeout=300)\<close>, seen when the caller has waited
  \<open>elapsed\<close> seconds: a future that is done gives its result or raises its exception;
  a pending one raises TimeoutError once the timeout has elapsed, and is cancelled;
  before that the caller stays suspended (None).
\<close>

definition timeout_seconds :: nat where
  "timeout_seconds = 300"

fun wait_for :: "future \<Rightarrow> nat \<Rightarrow> ((exn + json \<times> json) \<times> future) option" where
  "wait_for (FResult response_data status_code) elapsed =
     Some (Inr (response_data, status_code), FResult response_data status_code)"
| "wait_for (FException e) elapsed = Some (Inl e, FException e)"
| "wait_for FCancelled elapsed = Some (Inl CancelledError, FCancelled)"
| "wait_for FPending elapsed =
     (if timeout_seconds \<le> elapsed then Some (Inl TimeoutError, FCancelled) else None)"

text \<open>
  The \<^verbatim>\<open>return\<close> and the two \<^verbatim>\<open>except\<close> clauses of lines 292-308: what the call
  is about to return (or to raise) when the \<^verbatim>\<open>finally\<close> clause starts.
\<close>

fun pending_return :: "exn + json \<times> json \<Rightarrow> exn + http_response" where
  "pending_return (Inr (response_data, status_code)) =
     Inr (JSONResponse response_data status_code)"
| "pending_return (Inl CancelledError) =
     Inr (JSONResponse (JObj [(''error'', JStr ''Request cancelled - client disconnected'')])
            (JNum 499))"
| "pending_return (Inl TimeoutError) =
     Inr (JSONResponse (JObj [(''error'', JStr ''Timeout waiting for mock response'')])
            (JNum 504))"
| "pending_return (Inl e) = Inl e"

text \<open>
  The \<^verbatim>\<open>finally\<close> clause of lines 309-314: the future leaves the table and
  \<^verbatim>\<open>_cleanup_current_request\<close> runs.
\<close>

definition finally_cleanup :: "state \<Rightarrow> string \<Rightarrow> exn option \<times> state" where
  "finally_cleanup s req_id =
     cleanup_current_request (s\<lparr>request_futures := (request_futures s)(req_id := None)\<rparr>) req_id"

text \<open>
  Lines 288-314, for the call that waits on the future stored under \<open>req_id\<close>, seen
  \<open>elapsed\<close> seconds after it began to wait. None: the call is still suspended (or no
  future is stored under the id). An exception raised in the \<^verbatim>\<open>finally\<close> clause
  replaces the pending return. The inner \<^verbatim>\<open>finally\<close> clause (lines 295-301), which
  cancels the disconnect watcher and awaits it, touches none of the state modelled here
  and is left out.
\<close>

definition resume :: "state \<Rightarrow> string \<Rightarrow> nat \<Rightarrow> ((exn + http_response) \<times> state) option" where
  "resume s req_id elapsed =
     (case request_futures s req_id of
        None \<Rightarrow> None
      | Some f \<Rightarrow>
          (case wait_for f elapsed of
             None \<Rightarrow> None
           | Some (outcome, f') \<Rightarrow>
               (case finally_cleanup
                       (s\<lparr>request_futures := (request_futures s)(req_id \<mapsto> f')\<rparr>) req_id of
                  (Some e, s') \<Rightarrow> Some (Inl e, s')
                | (None, s') \<Rightarrow> Some (pending_return outcome, s'))))"

section \<open>Observations used in the statements\<close>

text \<open>The content of the current slot, as a list: empty, or the one current request.\<close>

definition slot :: "state \<Rightarrow> request_obj list" where
  "slot s = (case current_request s of None \<Rightarrow> [] | Some r \<Rightarrow> [r])"

text \<open>The requests in the order in which they stand to be served: the current one, then the queue.\<close>

definition line :: "state \<Rightarrow> request_obj list" where
  "line s = slot s @ pending_requests s"

text \<open>The requests a socket has been sent as new_request messages, oldest first.\<close>

fun new_requests_of :: "nat \<Rightarrow> (nat \<times> event) list \<Rightarrow> request_obj list" where
  "new_requests_of w [] = []"
| "new_requests_of w ((w', NewRequest r) # evs) =
     (if w' = w then r # new_requests_of w evs else new_requests_of w evs)"
| "new_requests_of w (_ # evs) = new_requests_of w evs"

definition announced_to :: "nat \<Rightarrow> state \<Rightarrow> request_obj list" where
  "announced_to w s = new_requests_of w (sent s)"

text \<open>The ids of the requests sent to some console as new_request messages, oldest first.\<close>

fun announced_ids :: "(nat \<times> event) list \<Rightarrow> string list" where
  "announced_ids [] = []"
| "announced_ids ((w, NewRequest r) # evs) = rq_id r # announced_ids evs"
| "announced_ids (_ # evs) = announced_ids evs"

text \<open>
  The announced state of a request, read off the process state: a new_request message
  for its id has been delivered, and no result, exception or cancellation has reached
  its future, which is still pending in the table.
\<close>

definition in_announced_state :: "state \<Rightarrow> string \<Rightarrow> bool" where
  "in_announced_state s i \<longleftrightarrow>
     i \<in> set (announced_ids (sent s)) \<and> request_futures s i = Some FPending"

text \<open>The messages delivered to a socket, oldest first.\<close>

definition delivered_to :: "nat \<Rightarrow> state \<Rightarrow> event list" where
  "delivered_to w s = map snd (filter (\<lambda>p. fst p = w) (sent s))"

text \<open>A run of submissions with nothing else in between.\<close>

fun submit_all :: "state \<Rightarrow> request_obj list \<Rightarrow> state" where
  "submit_all s [] = s"
| "submit_all s (r # rs) = submit_all (snd (submit s r)) rs"

text \<open>
  The call that waits for the current request leaves (answered, cancelled or timed out)
  and runs its \<^verbatim>\<open>finally\<close> clause.
\<close>

definition release :: "state \<Rightarrow> state" where
  "release s =
     (case current_request s of
        None \<Rightarrow> s
      | Some r \<Rightarrow> snd (finally_cleanup s (rq_id r)))"

text \<open>The state in which every request has been served: no current request, an empty queue.\<close>

definition idle :: "state \<Rightarrow> bool" where
  "idle s \<longleftrightarrow> current_request s = None \<and> pending_requests s = []"

text \<open>
  What \<^verbatim>\<open>process_next_request\<close> leaves behind: the slot is free only when the queue
  is empty.
\<close>

definition settled :: "state \<Rightarrow> bool" where
  "settled s \<longleftrightarrow> current_request s \<noteq> None \<or> pending_requests s = []"

text \<open>
  The sockets a send loop with no \<^verbatim>\<open>try\<close> gets to: those the loop visits before the
  first socket whose send raises.
\<close>

definition reached :: "state \<Rightarrow> nat \<Rightarrow> bool" where
  "reached s w \<longleftrightarrow>
     w \<in> set (takeWhile (\<lambda>v. send_fault s v = None) (websocket_clients s))"

text \<open>The coordinator's part of the state: the slot, the queue and the table of futures.\<close>

definition coordinator ::
  "state \<Rightarrow> request_obj option \<times> request_obj list \<times> (string \<rightharpoonup> future)" where
  "coordinator s = (current_request s, pending_requests s, request_futures s)"

section \<open>Example requests and states\<close>

definition req_A :: request_obj where
  "req_A = \<lparr>rq_id = ''a'', rq_ip = ''10.0.0.1'', rq_port = 5001, rq_method = ''POST'',
     rq_path = ''/v1/completions'', rq_headers = [], rq_body = JStr ''first'',
     rq_timestamp = ''1.0'', rq_status = ''pending''\<rparr>"

definition req_B :: request_obj where
  "req_B = \<lparr>rq_id = ''b'', rq_ip = ''10.0.0.2'', rq_port = 5002, rq_method = ''POST'',
     rq_path = ''/v1/completions'', rq_headers = [], rq_body = JStr ''second'',
     rq_timestamp = ''2.0'', rq_status = ''pending''\<rparr>"


text \<open>Nothing submitted, one healthy console.\<close>

definition st_idle :: state where
  "st_idle = \<lparr>pending_requests = [], current_request = None, request_futures = Map.empty,
     websocket_clients = [1], send_fault = Map.empty, sent = [],
     preset_queues = Map.empty, bypass_enabled = False\<rparr>"

text \<open>Request a is current, request b waits in the queue, one healthy console.\<close>

definition st_AB :: state where
  "st_AB = \<lparr>pending_requests = [req_B], current_request = Some req_A,
     request_futures = [''a'' \<mapsto> FPending, ''b'' \<mapsto> FPending],
     websocket_clients = [1], send_fault = Map.empty, sent = [],
     preset_queues = Map.empty, bypass_enabled = False\<rparr>"

text \<open>Two consoles, the first of which raises on every send; request a waits in the queue.\<close>

definition st_broken :: state where
  "st_broken = \<lparr>pending_requests = [req_A], current_request = None,
     request_futures = [''a'' \<mapsto> FPending],
     websocket_clients = [1, 2], send_fault = [1 \<mapsto> RuntimeError], sent = [],
     preset_queues = Map.empty, bypass_enabled = False\<rparr>"

text \<open>As \<open>st_AB\<close>, with two consoles, the first of which raises on every send.\<close>

definition st_AB_broken :: state where
  "st_AB_broken = \<lparr>pending_requests = [req_B], current_request = Some req_A,
     request_futures = [''a'' \<mapsto> FPending, ''b'' \<mapsto> FPending],
     websocket_clients = [1, 2], send_fault = [1 \<mapsto> RuntimeError], sent = [],
     preset_queues = Map.empty, bypass_enabled = False\<rparr>"

text \<open>Two preset items, and states with preset queues for two addresses.\<close>

definition preset_1 :: preset_item where
  "preset_1 = \<lparr>pi_id = ''p1'', pi_response = JStr ''canned-1'', pi_status_code = JNum 200,
     pi_created_at = 0\<rparr>"

definition preset_2 :: preset_item where
  "preset_2 = \<lparr>pi_id = ''p2'', pi_response = JStr ''canned-2'', pi_status_code = JNum 201,
     pi_created_at = 1\<rparr>"

definition st_preset :: state where
  "st_preset = \<lparr>pending_requests = [], current_request = None, request_futures = Map.empty,
     websocket_clients = [1], send_fault = Map.empty, sent = [],
     preset_queues = [''10.0.0.1'' \<mapsto> [preset_1, preset_2], ''10.0.0.2'' \<mapsto> [preset_2]],
     bypass_enabled = False\<rparr>"

definition st_bypass :: state where
  "st_bypass = \<lparr>pending_requests = [], current_request = None, request_futures = Map.empty,
     websocket_clients = [1], send_fault = Map.empty, sent = [],
     preset_queues = [''10.0.0.1'' \<mapsto> [preset_1, preset_2], ''10.0.0.2'' \<mapsto> [preset_2]],
     bypass_enabled = True\<rparr>"

text \<open>A call from the first address.\<close>

definition call_A :: incoming where
  "call_A = \<lparr>in_body = JStr ''first'', in_client_ip = ''10.0.0.1'', in_client_port = 5001,
     in_headers = [], in_req_id = ''a'', in_bypass_id = ''x'', in_timestamp = ''1.0'',
     in_upstream = Inr (JStr ''upstream'', JNum 200)\<rparr>"

section \<open>Basic facts\<close>

lemma is_done_iff: "is_done f \<longleftrightarrow> f \<noteq> FPending"
  by (cases f) simp_all

lemma send_json_frame:
  "pending_requests (snd (send_json s w ev)) = pending_requests s"
  "current_request (snd (send_json s w ev)) = current_request s"
  "request_futures (snd (send_json s w ev)) = request_futures s"
  "websocket_clients (snd (send_json s w ev)) = websocket_clients s"
  "send_fault (snd (send_json s w ev)) = send_fault s"
  "preset_queues (snd (send_json s w ev)) = preset_queues s"
  "bypass_enabled (snd (send_json s w ev)) = bypass_enabled s"
  by (simp_all add: send_json_def split: option.split)

lemma send_each_frame:
  "pending_requests (snd (send_each ev ws s)) = pending_requests s"
  "current_request (snd (send_each ev ws s)) = current_request s"
  "request_futures (snd (send_each ev ws s)) = request_futures s"
  "websocket_clients (snd (send_each ev ws s)) = websocket_clients s"
  "send_fault (snd (send_each ev ws s)) = send_fault s"
  "preset_queues (snd (send_each ev ws s)) = preset_queues s"
  "bypass_enabled (snd (send_each ev ws s)) = bypass_enabled s"
  by (induction ws arbitrary: s; simp add: send_json_def split: option.split)+

lemma send_each_frameD:
  "send_each ev ws s = (e, s') \<Longrightarrow>
     pending_requests s' = pending_requests s \<and> current_request s' = current_request s \<and>
     request_futures s' = request_futures s \<and> websocket_clients s' = websocket_clients s \<and>
     send_fault s' = send_fault s \<and> preset_queues s' = preset_queues s \<and>
     bypass_enabled s' = bypass_enabled s"
  using send_each_frame [of ev ws s] by simp

section \<open>\<^verbatim>\<open>process_next_request\<close>: the single slot\<close>

lemma process_next_request_frame:
  "request_futures (snd (process_next_request s)) = request_futures s"
  "websocket_clients (snd (process_next_request s)) = websocket_clients s"
  "send_fault (snd (process_next_request s)) = send_fault s"
  "preset_queues (snd (process_next_request s)) = preset_queues s"
  "bypass_enabled (snd (process_next_request s)) = bypass_enabled s"
  by (simp_all add: process_next_request_def send_each_frame Let_def split: list.split)

lemma process_next_request_noop:
  "current_request s \<noteq> None \<or> pending_requests s = [] \<Longrightarrow> process_next_request s = (None, s)"
  by (auto simp: process_next_request_def)

lemma process_next_request_head:
  "current_request s = None \<Longrightarrow> pending_requests s = r # q \<Longrightarrow>
     current_request (snd (process_next_request s)) = Some r \<and>
     pending_requests (snd (process_next_request s)) = q"
  by (simp add: process_next_request_def send_each_frame Let_def)

lemma process_next_request_settled:
  "current_request (snd (process_next_request s)) \<noteq> None \<or>
   pending_requests (snd (process_next_request s)) = []"
  by (cases "current_request s"; cases "pending_requests s")
     (simp_all add: process_next_request_def send_each_frame Let_def)

lemma process_next_request_advance:
  "(current_request s \<noteq> None \<or> pending_requests s = [] \<longrightarrow>
      process_next_request s = (None, s)) \<and>
   (current_request s = None \<and> pending_requests s = r # q \<longrightarrow>
      current_request (snd (process_next_request s)) = Some r \<and>
      pending_requests (snd (process_next_request s)) = q) \<and>
   process_next_request (snd (process_next_request s)) = (None, snd (process_next_request s))"
  using process_next_request_noop [of s] process_next_request_head [of s r q]
    process_next_request_noop [OF process_next_request_settled [of s]]
  by blast

section \<open>Completing a future at most once\<close>

lemma resolve_unfold:
  "resolve s i b c =
     (case request_futures s i of
        None \<Rightarrow> (None, s)
      | Some f \<Rightarrow> if is_done f then (None, s) else complete_request s i (JStr i) b c)"
  by (simp add: resolve_def send_response_msg_def on_message_def split: option.split)

lemma complete_request_futures:
  "request_futures (snd (complete_request s k j b c)) = (request_futures s)(k \<mapsto> FResult b c)"
  by (auto simp: complete_request_def Let_def process_next_request_frame
      split: option.split prod.split dest!: send_each_frameD)

lemma resolve_stale:
  "request_futures s i \<noteq> Some FPending \<Longrightarrow> resolve s i b c = (None, s)"
  by (auto simp: resolve_unfold is_done_iff split: option.split)

lemma resolve_futures:
  "request_futures (snd (resolve s i b c)) =
     (if request_futures s i = Some FPending then (request_futures s)(i \<mapsto> FResult b c)
      else request_futures s)"
  by (auto simp: resolve_unfold is_done_iff complete_request_futures split: option.split)

lemma cancel_stale:
  "request_futures s i \<noteq> Some FPending \<Longrightarrow> check_client_disconnect s i = s"
  by (auto simp: check_client_disconnect_def is_done_iff split: option.split)

lemma cancel_futures:
  "request_futures (check_client_disconnect s i) =
     (if request_futures s i = Some FPending
      then (request_futures s)(i \<mapsto> FException CancelledError)
      else request_futures s)"
  by (auto simp: check_client_disconnect_def is_done_iff split: option.split)

text \<open>
  Claim C5. After a first resolve (a send_response message for the id) or a first cancel
  (the disconnect watcher finding the caller gone), a second resolve or cancel for the
  same id, in any of the four orders, raises nothing and returns the state as it was:
  no future changes, nothing is sent, the slot and the queue stay. When the future was
  pending, it holds the outcome of the first call, and so still does after the second.
\<close>

theorem at_most_once_resolution:
  "resolve (snd (resolve s i b c)) i b' c' = (None, snd (resolve s i b c)) \<and>
   check_client_disconnect (snd (resolve s i b c)) i = snd (resolve s i b c) \<and>
   resolve (check_client_disconnect s i) i b' c' = (None, check_client_disconnect s i) \<and>
   check_client_disconnect (check_client_disconnect s i) i = check_client_disconnect s i \<and>
   (request_futures s i = Some FPending \<longrightarrow>
      request_futures (snd (resolve s i b c)) i = Some (FResult b c) \<and>
      request_futures (check_client_disconnect s i) i = Some (FException CancelledError))"
proof -
  have r: "request_futures (snd (resolve s i b c)) i \<noteq> Some FPending"
    by (simp add: resolve_futures)
  have k: "request_futures (check_client_disconnect s i) i \<noteq> Some FPending"
    by (simp add: cancel_futures)
  show ?thesis
    using resolve_stale [OF r] cancel_stale [OF r] resolve_stale [OF k] cancel_stale [OF k]
    by (simp add: resolve_futures cancel_futures)
qed

theorem at_most_once_resolution_witness:
  "request_futures st_AB ''a'' = Some FPending \<and>
   request_futures (snd (resolve st_AB ''a'' (JStr ''ok'') (JNum 200))) ''a''
     = Some (FResult (JStr ''ok'') (JNum 200)) \<and>
   resolve (snd (resolve st_AB ''a'' (JStr ''ok'') (JNum 200))) ''a'' (JStr ''late'') (JNum 500)
     = (None, snd (resolve st_AB ''a'' (JStr ''ok'') (JNum 200)))"
proof -
  have h: "request_futures st_AB ''a'' = Some FPending"
    by (simp add: st_AB_def)
  show ?thesis
    using h at_most_once_resolution
      [of st_AB "''a''" "JStr ''ok''" "JNum 200" "JStr ''late''" "JNum 500"]
    by simp
qed

section \<open>First in, first out\<close>

lemma new_requests_of_append:
  "new_requests_of w (xs @ ys) = new_requests_of w xs @ new_requests_of w ys"
  by (induction w xs rule: new_requests_of.induct) simp_all

lemma send_each_new_request:
  "distinct ws \<Longrightarrow>
   new_requests_of w (sent (snd (send_each (NewRequest r) ws s))) =
     new_requests_of w (sent s) @
       (if w \<in> set (takeWhile (\<lambda>v. send_fault s v = None) ws) then [r] else [])"
proof (induction ws arbitrary: s)
  case Nil
  then show ?case by simp
next
  case (Cons v ws)
  show ?case
  proof (cases "send_fault s v")
    case None
    let ?s1 = "s\<lparr>sent := sent s @ [(v, NewRequest r)]\<rparr>"
    have step: "send_each (NewRequest r) (v # ws) s = send_each (NewRequest r) ws ?s1"
      using None by (simp add: send_json_def)
    have "w \<noteq> v \<or> w \<notin> set (takeWhile (\<lambda>u. send_fault s u = None) ws)"
      using Cons.prems by (auto dest: set_takeWhileD)
    then show ?thesis
      using Cons.IH [of ?s1] Cons.prems None
      by (subst step) (auto simp: new_requests_of_append simp del: send_each.simps)
  next
    case (Some e)
    then show ?thesis by (simp add: send_json_def)
  qed
qed

lemma process_next_request_announced:
  "distinct (websocket_clients s) \<Longrightarrow>
   announced_to w (snd (process_next_request s)) =
     announced_to w s @
       (if current_request s = None \<and> reached s w then take 1 (pending_requests s) else [])"
  by (cases "pending_requests s")
     (simp_all add: process_next_request_def announced_to_def reached_def Let_def
        send_each_new_request)

lemma process_next_request_line:
  "line (snd (process_next_request s)) = line s"
  by (cases "current_request s"; cases "pending_requests s")
     (simp_all add: process_next_request_def line_def slot_def Let_def send_each_frame)


lemma submit_frame:
  "websocket_clients (snd (submit s r)) = websocket_clients s"
  "send_fault (snd (submit s r)) = send_fault s"
  "preset_queues (snd (submit s r)) = preset_queues s"
  "bypass_enabled (snd (submit s r)) = bypass_enabled s"
  "request_futures (snd (submit s r)) = (request_futures s)(rq_id r \<mapsto> FPending)"
  by (simp_all add: submit_def process_next_request_frame)

lemma submit_line: "line (snd (submit s r)) = line s @ [r]"
  by (simp add: submit_def process_next_request_line) (simp add: line_def slot_def)

lemma submit_settled: "settled (snd (submit s r))"
  using process_next_request_settled by (simp add: submit_def settled_def)

lemma reached_cong:
  "websocket_clients s' = websocket_clients s \<Longrightarrow> send_fault s' = send_fault s \<Longrightarrow>
     reached s' w = reached s w"
  by (simp add: reached_def)

lemma settled_line_Nil: "settled s \<Longrightarrow> line s = [] \<longleftrightarrow> current_request s = None"
  by (auto simp: settled_def line_def slot_def split: option.splits)

lemma submit_announced:
  assumes "distinct (websocket_clients s)" and "settled s"
  shows "announced_to w (snd (submit s r)) =
           announced_to w s @ (if line s = [] \<and> reached s w then [r] else [])"
proof -
  let ?s1 = "s\<lparr>request_futures := (request_futures s)(rq_id r \<mapsto> FPending),
                pending_requests := pending_requests s @ [r]\<rparr>"
  have a: "announced_to w ?s1 = announced_to w s" and b: "reached ?s1 w = reached s w"
    by (simp_all add: announced_to_def reached_def)
  have c: "current_request s = None \<Longrightarrow> pending_requests s = []"
    using assms(2) by (simp add: settled_def)
  show ?thesis
    using process_next_request_announced [of ?s1 w] assms a b c
    by (auto simp: submit_def settled_line_Nil)
qed

lemma release_unfold:
  "release s =
     (case current_request s of
        None \<Rightarrow> s
      | Some r \<Rightarrow>
          snd (process_next_request
                 (s\<lparr>request_futures := (request_futures s)(rq_id r := None),
                    current_request := None\<rparr>)))"
  by (simp add: release_def finally_cleanup_def cleanup_current_request_def split: option.split)

lemma release_frame:
  "websocket_clients (release s) = websocket_clients s"
  "send_fault (release s) = send_fault s"
  by (simp_all add: release_unfold process_next_request_frame split: option.split)

lemma release_line: "settled s \<Longrightarrow> line (release s) = tl (line s)"
  by (cases "current_request s")
     (simp_all add: release_unfold process_next_request_line,
      simp_all add: line_def slot_def settled_def)

lemma release_settled: "settled s \<Longrightarrow> settled (release s)"
  using process_next_request_settled
  by (cases "current_request s") (simp_all add: release_unfold, simp add: settled_def)

lemma release_announced:
  assumes "distinct (websocket_clients s)" and "settled s"
  shows "announced_to w (release s) =
           announced_to w s @ (if reached s w then take 1 (tl (line s)) else [])"
proof (cases "current_request s")
  case None
  then show ?thesis
    using assms(2) by (simp add: release_unfold line_def slot_def settled_def)
next
  case (Some r)
  let ?s1 = "s\<lparr>request_futures := (request_futures s)(rq_id r := None),
                current_request := None\<rparr>"
  have a: "announced_to w ?s1 = announced_to w s" and b: "reached ?s1 w = reached s w"
    by (simp_all add: announced_to_def reached_def)
  show ?thesis
    using process_next_request_announced [of ?s1 w] assms(1) Some a b
    by (simp add: release_unfold line_def slot_def)
qed

lemma submit_all_facts:
  "settled s \<Longrightarrow> distinct (websocket_clients s) \<Longrightarrow>
     settled (submit_all s rs) \<and> line (submit_all s rs) = line s @ rs \<and>
     websocket_clients (submit_all s rs) = websocket_clients s \<and>
     send_fault (submit_all s rs) = send_fault s \<and>
     announced_to w (submit_all s rs) =
       announced_to w s @ (if line s = [] \<and> reached s w then take 1 rs else [])"
proof (induction rs arbitrary: s)
  case Nil
  then show ?case by simp
next
  case (Cons r rs)
  let ?s1 = "snd (submit s r)"
  have r: "reached ?s1 w = reached s w"
    by (rule reached_cong) (simp_all add: submit_frame)
  have "settled ?s1" and "distinct (websocket_clients ?s1)"
    using Cons.prems by (simp_all add: submit_settled submit_frame)
  from Cons.IH [OF this] show ?case
    using Cons.prems r by (simp add: submit_line submit_frame submit_announced)
qed

lemma take_Suc_append: "take k xs @ take 1 (drop k xs) = take (Suc k) xs"
  using take_add [of k 1 xs] by simp

lemma release_pow_facts:
  "settled s \<Longrightarrow> distinct (websocket_clients s) \<Longrightarrow>
     settled ((release ^^ k) s) \<and> line ((release ^^ k) s) = drop k (line s) \<and>
     websocket_clients ((release ^^ k) s) = websocket_clients s \<and>
     send_fault ((release ^^ k) s) = send_fault s \<and>
     announced_to w ((release ^^ k) s) =
       announced_to w s @ (if reached s w then take k (tl (line s)) else [])"
proof (induction k)
  case 0
  then show ?case by simp
next
  case (Suc k)
  let ?t = "(release ^^ k) s"
  have ih: "settled ?t" "line ?t = drop k (line s)"
    "websocket_clients ?t = websocket_clients s" "send_fault ?t = send_fault s"
    "announced_to w ?t = announced_to w s @ (if reached s w then take k (tl (line s)) else [])"
    using Suc by simp_all
  have r: "reached ?t w = reached s w"
    by (rule reached_cong) (simp_all add: ih)
  have d: "distinct (websocket_clients ?t)"
    using Suc.prems ih by simp
  have "tl (drop k (line s)) = drop k (tl (line s))"
    by (simp add: drop_Suc tl_drop)
  then show ?case
    using ih r release_settled [OF ih(1)] release_line [OF ih(1)]
      release_announced [OF d ih(1), of w] take_Suc_append [of k "tl (line s)"]
    by (simp add: release_frame drop_Suc)
qed

lemma settled_current:
  "settled s \<Longrightarrow> current_request s = (case line s of [] \<Rightarrow> None | r # _ \<Rightarrow> Some r)"
  by (auto simp: settled_def line_def slot_def split: option.splits list.splits)

text \<open>
  Claim C6. Start from the state with a free slot and an empty queue (the sockets being a
  set, none is listed twice), submit the requests \<open>rs\<close> one after the other with
  nothing in between, and let the call that waits for the current request leave \<open>k\<close>
  times. The request then in the current slot is \<open>rs ! k\<close>, the one submitted after
  \<open>k\<close> others (none when all have been served), and every console the send loop of
  \<^verbatim>\<open>process_next_request\<close> gets to has been sent as new_request messages, in this
  order, the first \<open>k + 1\<close> submitted requests: requests are announced oldest first,
  in the order of submission.
\<close>

theorem fifo_announce_order:
  assumes "idle s" and "distinct (websocket_clients s)"
  shows "current_request ((release ^^ k) (submit_all s rs)) =
           (if k < length rs then Some (rs ! k) else None) \<and>
         announced_to w ((release ^^ k) (submit_all s rs)) =
           announced_to w s @ (if reached s w then take (Suc k) rs else [])"
proof -
  let ?t = "submit_all s rs"
  have s: "settled s" and l: "line s = []"
    using assms(1) by (simp_all add: idle_def settled_def line_def slot_def)
  have t: "settled ?t" "line ?t = rs" "websocket_clients ?t = websocket_clients s"
    "send_fault ?t = send_fault s"
    "announced_to w ?t = announced_to w s @ (if reached s w then take 1 rs else [])"
    using submit_all_facts [OF s assms(2), of rs w] l by simp_all
  have r: "reached ?t w = reached s w"
    by (rule reached_cong) (simp_all add: t)
  have d: "distinct (websocket_clients ?t)"
    using assms(2) t by simp
  have p: "settled ((release ^^ k) ?t)" "line ((release ^^ k) ?t) = drop k rs"
    "announced_to w ((release ^^ k) ?t) =
       announced_to w ?t @ (if reached s w then take k (tl rs) else [])"
    using release_pow_facts [OF t(1) d, of k w] t r by simp_all
  have c: "current_request ((release ^^ k) ?t) = (if k < length rs then Some (rs ! k) else None)"
    using settled_current [OF p(1)] p(2)
    by (auto simp: hd_drop_conv_nth split: list.splits dest: arg_cong [where f = hd])
  have "take 1 rs @ take k (tl rs) = take (Suc k) rs"
    by (cases rs) simp_all
  then show ?thesis
    using c p(3) t(5) by simp
qed

theorem fifo_announce_order_witness:
  "idle st_idle \<and> distinct (websocket_clients st_idle) \<and>
   current_request ((release ^^ 1) (submit_all st_idle [req_A, req_B])) = Some req_B \<and>
   announced_to 1 ((release ^^ 1) (submit_all st_idle [req_A, req_B])) = [req_A, req_B]"
proof -
  have i: "idle st_idle" and d: "distinct (websocket_clients st_idle)"
    by (simp_all add: idle_def st_idle_def)
  have r: "reached st_idle 1" and a: "announced_to 1 st_idle = []"
    by (simp_all add: reached_def announced_to_def st_idle_def)
  show ?thesis
    using i d r a fifo_announce_order [OF i d, of 1 "[req_A, req_B]" 1]
    by simp
qed

section \<open>The three strategies of \<^verbatim>\<open>handle_completion\<close>\<close>

lemma broadcast_loop_frame:
  "pending_requests (fst (broadcast_loop ev ws s d)) = pending_requests s"
  "current_request (fst (broadcast_loop ev ws s d)) = current_request s"
  "request_futures (fst (broadcast_loop ev ws s d)) = request_futures s"
  "send_fault (fst (broadcast_loop ev ws s d)) = send_fault s"
  "preset_queues (fst (broadcast_loop ev ws s d)) = preset_queues s"
  "bypass_enabled (fst (broadcast_loop ev ws s d)) = bypass_enabled s"
  "websocket_clients (fst (broadcast_loop ev ws s d)) = websocket_clients s"
  by (induction ws arbitrary: s d; simp add: send_json_def split: option.split)+

lemma broadcast_websocket_frame:
  "pending_requests (broadcast_websocket s ev) = pending_requests s"
  "current_request (broadcast_websocket s ev) = current_request s"
  "request_futures (broadcast_websocket s ev) = request_futures s"
  "send_fault (broadcast_websocket s ev) = send_fault s"
  "preset_queues (broadcast_websocket s ev) = preset_queues s"
  "bypass_enabled (broadcast_websocket s ev) = bypass_enabled s"
  by (simp_all add: broadcast_websocket_def case_prod_beta broadcast_loop_frame)

lemma send_logged_frame:
  "pending_requests (send_logged ev ws s) = pending_requests s"
  "current_request (send_logged ev ws s) = current_request s"
  "request_futures (send_logged ev ws s) = request_futures s"
  "send_fault (send_logged ev ws s) = send_fault s"
  "preset_queues (send_logged ev ws s) = preset_queues s"
  "bypass_enabled (send_logged ev ws s) = bypass_enabled s"
  "websocket_clients (send_logged ev ws s) = websocket_clients s"
  by (induction ws arbitrary: s; simp add: send_json_frame)+

lemma handle_bypass_request_frame:
  "pending_requests (snd (handle_bypass_request s i)) = pending_requests s"
  "current_request (snd (handle_bypass_request s i)) = current_request s"
  "request_futures (snd (handle_bypass_request s i)) = request_futures s"
  "preset_queues (snd (handle_bypass_request s i)) = preset_queues s"
  by (simp_all add: handle_bypass_request_def Let_def broadcast_websocket_frame
      split: sum.split prod.split)

lemma handle_bypass_request_response:
  "fst (handle_bypass_request s i) =
     (case in_upstream i of
        Inr (response_body, status_code) \<Rightarrow> JSONResponse response_body status_code
      | Inl message \<Rightarrow> JSONResponse (JObj [(''error'', JStr message)]) (JNum 502))"
  by (simp add: handle_bypass_request_def Let_def split: sum.split prod.split)

lemma check_and_pop_None:
  "fst (check_and_pop queues ip) = None \<Longrightarrow> snd (check_and_pop queues ip) = queues"
  by (simp add: check_and_pop_def split: option.splits list.splits)

lemma handle_completion_bypass:
  "bypass_enabled s \<Longrightarrow>
     handle_completion s i =
       (Responded (fst (handle_bypass_request s i)), snd (handle_bypass_request s i))"
  by (simp add: handle_completion_def split: prod.split)

lemma handle_completion_manual:
  assumes "\<not> bypass_enabled s" and "fst (check_and_pop (preset_queues s) (in_client_ip i)) = None"
  shows "handle_completion s i =
           ((case fst (submit s (make_request i)) of None \<Rightarrow> Suspended | Some e \<Rightarrow> Failed e),
            snd (submit s (make_request i)))"
proof -
  have "check_and_pop (preset_queues s) (in_client_ip i) = (None, preset_queues s)"
    using assms(2) check_and_pop_None [OF assms(2)] by (simp add: prod_eq_iff)
  then show ?thesis
    using assms(1) by (simp add: handle_completion_def split: prod.split option.split)
qed

lemma handle_completion_preset:
  assumes "\<not> bypass_enabled s"
    and "check_and_pop (preset_queues s) (in_client_ip i) = (Some (b, c), queues')"
  shows "fst (handle_completion s i) = Responded (JSONResponse b c)"
    and "preset_queues (snd (handle_completion s i)) = queues'"
    and "current_request (snd (handle_completion s i)) = current_request s"
    and "pending_requests (snd (handle_completion s i)) = pending_requests s"
    and "request_futures (snd (handle_completion s i)) = request_futures s"
  using assms
  by (simp_all add: handle_completion_def Let_def broadcast_queue_update_def
      send_logged_frame broadcast_websocket_frame)

text \<open>
  Claim C9. \<^verbatim>\<open>handle_completion\<close> tries the three strategies in a fixed order. With
  bypass enabled the answer is the forwarded one (or 502 with the forwarding error), and
  the preset queues, the slot, the queue and the futures are as before. With bypass
  disabled and a preset response for the caller's address, that response is the answer
  and the slot, the queue and the futures are as before. Only with bypass disabled and
  no preset response is the request submitted: its future is stored as pending, it joins
  the end of the line, and the call waits (or an exception of the announcement leaves it).
\<close>

theorem strategy_priority:
  "(bypass_enabled s \<longrightarrow>
      fst (handle_completion s i) =
        Responded (case in_upstream i of
                     Inr (response_body, status_code) \<Rightarrow> JSONResponse response_body status_code
                   | Inl message \<Rightarrow> JSONResponse (JObj [(''error'', JStr message)]) (JNum 502)) \<and>
      preset_queues (snd (handle_completion s i)) = preset_queues s \<and>
      coordinator (snd (handle_completion s i)) = coordinator s) \<and>
   (\<not> bypass_enabled s \<and>
    fst (check_and_pop (preset_queues s) (in_client_ip i)) = Some (b, c) \<longrightarrow>
      fst (handle_completion s i) = Responded (JSONResponse b c) \<and>
      coordinator (snd (handle_completion s i)) = coordinator s) \<and>
   (\<not> bypass_enabled s \<and>
    fst (check_and_pop (preset_queues s) (in_client_ip i)) = None \<longrightarrow>
      handle_completion s i =
        ((case fst (submit s (make_request i)) of None \<Rightarrow> Suspended | Some e \<Rightarrow> Failed e),
         snd (submit s (make_request i))) \<and>
      request_futures (snd (handle_completion s i)) (in_req_id i) = Some FPending \<and>
      line (snd (handle_completion s i)) = line s @ [make_request i] \<and>
      preset_queues (snd (handle_completion s i)) = preset_queues s)"
proof (intro conjI impI)
  assume "bypass_enabled s"
  then have h: "handle_completion s i =
      (Responded (fst (handle_bypass_request s i)), snd (handle_bypass_request s i))"
    by (rule handle_completion_bypass)
  show "fst (handle_completion s i) =
        Responded (case in_upstream i of
                     Inr (response_body, status_code) \<Rightarrow> JSONResponse response_body status_code
                   | Inl message \<Rightarrow> JSONResponse (JObj [(''error'', JStr message)]) (JNum 502))"
    by (simp add: h handle_bypass_request_response)
  show "preset_queues (snd (handle_completion s i)) = preset_queues s"
    by (simp add: h handle_bypass_request_frame)
  show "coordinator (snd (handle_completion s i)) = coordinator s"
    by (simp add: h coordinator_def handle_bypass_request_frame)
next
  assume a: "\<not> bypass_enabled s \<and>
    fst (check_and_pop (preset_queues s) (in_client_ip i)) = Some (b, c)"
  then obtain queues' where
    p: "check_and_pop (preset_queues s) (in_client_ip i) = (Some (b, c), queues')"
    by (cases "check_and_pop (preset_queues s) (in_client_ip i)") simp
  from a have nb: "\<not> bypass_enabled s" by simp
  show "fst (handle_completion s i) = Responded (JSONResponse b c)"
    by (rule handle_completion_preset(1) [OF nb p])
  show "coordinator (snd (handle_completion s i)) = coordinator s"
    by (simp add: coordinator_def handle_completion_preset [OF nb p])
next
  assume a: "\<not> bypass_enabled s \<and>
    fst (check_and_pop (preset_queues s) (in_client_ip i)) = None"
  then have h: "handle_completion s i =
        ((case fst (submit s (make_request i)) of None \<Rightarrow> Suspended | Some e \<Rightarrow> Failed e),
         snd (submit s (make_request i)))"
    by (simp add: handle_completion_manual)
  show "handle_completion s i =
        ((case fst (submit s (make_request i)) of None \<Rightarrow> Suspended | Some e \<Rightarrow> Failed e),
         snd (submit s (make_request i)))"
    by (rule h)
  show "request_futures (snd (handle_completion s i)) (in_req_id i) = Some FPending"
    by (simp add: h submit_frame make_request_def)
  show "line (snd (handle_completion s i)) = line s @ [make_request i]"
    by (simp add: h submit_line)
  show "preset_queues (snd (handle_completion s i)) = preset_queues s"
    by (simp add: h submit_frame)
qed

theorem strategy_priority_witness:
  "bypass_enabled st_bypass \<and>
   fst (handle_completion st_bypass call_A) = Responded (JSONResponse (JStr ''upstream'') (JNum 200)) \<and>
   preset_queues (snd (handle_completion st_bypass call_A)) = preset_queues st_bypass \<and>
   coordinator (snd (handle_completion st_bypass call_A)) = coordinator st_bypass \<and>
   \<not> bypass_enabled st_preset \<and>
   fst (check_and_pop (preset_queues st_preset) (in_client_ip call_A))
     = Some (JStr ''canned-1'', JNum 200) \<and>
   fst (handle_completion st_preset call_A) = Responded (JSONResponse (JStr ''canned-1'') (JNum 200)) \<and>
   coordinator (snd (handle_completion st_preset call_A)) = coordinator st_preset \<and>
   \<not> bypass_enabled st_idle \<and>
   fst (check_and_pop (preset_queues st_idle) (in_client_ip call_A)) = None \<and>
   request_futures (snd (handle_completion st_idle call_A)) (in_req_id call_A) = Some FPending \<and>
   line (snd (handle_completion st_idle call_A)) = [make_request call_A]"
proof -
  have b: "bypass_enabled st_bypass" and u: "in_upstream call_A = Inr (JStr ''upstream'', JNum 200)"
    by (simp_all add: st_bypass_def call_A_def)
  have p: "\<not> bypass_enabled st_preset \<and>
      fst (check_and_pop (preset_queues st_preset) (in_client_ip call_A))
        = Some (JStr ''canned-1'', JNum 200)"
    by (simp add: st_preset_def call_A_def check_and_pop_def preset_1_def)
  have m: "\<not> bypass_enabled st_idle \<and>
      fst (check_and_pop (preset_queues st_idle) (in_client_ip call_A)) = None"
    by (simp add: st_idle_def check_and_pop_def)
  have l: "line st_idle = []"
    by (simp add: line_def slot_def st_idle_def)
  have 1: "fst (handle_completion st_bypass call_A) =
        Responded (case in_upstream call_A of
                     Inr (response_body, status_code) \<Rightarrow> JSONResponse response_body status_code
                   | Inl message \<Rightarrow> JSONResponse (JObj [(''error'', JStr message)]) (JNum 502)) \<and>
      preset_queues (snd (handle_completion st_bypass call_A)) = preset_queues st_bypass \<and>
      coordinator (snd (handle_completion st_bypass call_A)) = coordinator st_bypass"
    using b strategy_priority [of st_bypass call_A] by blast
  have 2: "fst (handle_completion st_preset call_A) =
        Responded (JSONResponse (JStr ''canned-1'') (JNum 200)) \<and>
      coordinator (snd (handle_completion st_preset call_A)) = coordinator st_preset"
    using p strategy_priority [of st_preset call_A "JStr ''canned-1''" "JNum 200"] by blast
  have 3: "request_futures (snd (handle_completion st_idle call_A)) (in_req_id call_A)
        = Some FPending \<and>
      line (snd (handle_completion st_idle call_A)) = line st_idle @ [make_request call_A]"
    using m strategy_priority [of st_idle call_A] by blast
  show ?thesis
    using b u p m l 1 2 3 by simp
qed

text \<open>
  Claim C10. When \<^verbatim>\<open>handle_completion\<close> serves a preset response, the head of the
  caller's preset queue is the answer and is the one item removed, the queue of every
  other address is as before, and the table of futures, the pending queue and the
  current slot are as before.
\<close>

theorem preset_pop_frame:
  assumes "\<not> bypass_enabled s" and "preset_queues s (in_client_ip i) = Some (p # rest)"
  shows "check_and_pop (preset_queues s) (in_client_ip i) =
           (Some (pi_response p, pi_status_code p), (preset_queues s)(in_client_ip i \<mapsto> rest)) \<and>
         fst (handle_completion s i) =
           Responded (JSONResponse (pi_response p) (pi_status_code p)) \<and>
         preset_queues (snd (handle_completion s i)) (in_client_ip i) = Some rest \<and>
         (\<forall>ip. ip \<noteq> in_client_ip i \<longrightarrow>
            preset_queues (snd (handle_completion s i)) ip = preset_queues s ip) \<and>
         request_futures (snd (handle_completion s i)) = request_futures s \<and>
         pending_requests (snd (handle_completion s i)) = pending_requests s \<and>
         current_request (snd (handle_completion s i)) = current_request s"
proof -
  have c: "check_and_pop (preset_queues s) (in_client_ip i) =
           (Some (pi_response p, pi_status_code p), (preset_queues s)(in_client_ip i \<mapsto> rest))"
    using assms(2) by (simp add: check_and_pop_def)
  show ?thesis
    using c handle_completion_preset [OF assms(1) c] by simp
qed

theorem preset_pop_frame_witness:
  "\<not> bypass_enabled st_preset \<and>
   preset_queues st_preset (in_client_ip call_A) = Some [preset_1, preset_2] \<and>
   fst (handle_completion st_preset call_A) = Responded (JSONResponse (JStr ''canned-1'') (JNum 200)) \<and>
   preset_queues (snd (handle_completion st_preset call_A)) ''10.0.0.1'' = Some [preset_2] \<and>
   preset_queues (snd (handle_completion st_preset call_A)) ''10.0.0.2'' = Some [preset_2] \<and>
   request_futures (snd (handle_completion st_preset call_A)) = request_futures st_preset \<and>
   pending_requests (snd (handle_completion st_preset call_A)) = [] \<and>
   current_request (snd (handle_completion st_preset call_A)) = None"
proof -
  have nb: "\<not> bypass_enabled st_preset"
    and q: "preset_queues st_preset (in_client_ip call_A) = Some (preset_1 # [preset_2])"
    and ip: "in_client_ip call_A = ''10.0.0.1''"
    and other: "preset_queues st_preset ''10.0.0.2'' = Some [preset_2]"
    and co: "pending_requests st_preset = []" "current_request st_preset = None"
    by (simp_all add: st_preset_def call_A_def)
  have v: "pi_response preset_1 = JStr ''canned-1''" "pi_status_code preset_1 = JNum 200"
    by (simp_all add: preset_1_def)
  have "''10.0.0.2'' \<noteq> in_client_ip call_A"
    by (simp add: ip)
  then show ?thesis
    using preset_pop_frame [OF nb q] nb q ip other co v by simp
qed

section \<open>Resolving through the operator's socket\<close>

text \<open>
  Claim C1. Resolving a request must clear the current slot only when the slot holds that
  request. The send_response branch of \<^verbatim>\<open>websocket_endpoint\<close> sets
  \<^verbatim>\<open>current_request = None\<close> without comparing ids: with request a current and request
  b in the queue, the message for b completes b's future, builds the completed_request
  message from a's address and body, empties a's slot and puts b into it; a is then
  neither current nor queued while its future is still pending.
  \<^verbatim>\<open>_cleanup_current_request\<close> on the same state and id compares the ids and changes
  nothing.
\<close>

theorem resolve_clears_other_slot:
  "current_request st_AB = Some req_A \<and> rq_id req_A \<noteq> ''b'' \<and>
   current_request (snd (resolve st_AB ''b'' (JStr ''ok'') (JNum 200))) = Some req_B \<and>
   pending_requests (snd (resolve st_AB ''b'' (JStr ''ok'') (JNum 200))) = [] \<and>
   request_futures (snd (resolve st_AB ''b'' (JStr ''ok'') (JNum 200))) ''a'' = Some FPending \<and>
   delivered_to 1 (snd (resolve st_AB ''b'' (JStr ''ok'') (JNum 200))) =
     [CompletedRequest (JStr ''b'') (rq_ip req_A) (rq_port req_A) (rq_body req_A)
        (JStr ''ok'') (JNum 200),
      NewRequest req_B] \<and>
   cleanup_current_request st_AB ''b'' = (None, st_AB)"
  by (simp add: resolve_unfold complete_request_def process_next_request_def send_json_def
      cleanup_current_request_def delivered_to_def st_AB_def req_A_def)

text \<open>
  Claim C2. An operator message must resolve a request only when it is the announced
  (current) one: a request that still waits in the queue cannot be resolved. The
  send_response branch of \<^verbatim>\<open>websocket_endpoint\<close> looks the id up in
  \<^verbatim>\<open>request_futures\<close> and never compares it with the current request. After the
  submissions of a and b, a is current and announced, b waits in the queue and no
  new_request message for b has been sent; the message for b completes b's future, and
  b's caller is answered with the operator's response.
\<close>

theorem queued_request_resolved:
  "current_request (submit_all st_idle [req_A, req_B]) = Some req_A \<and>
   pending_requests (submit_all st_idle [req_A, req_B]) = [req_B] \<and>
   announced_to 1 (submit_all st_idle [req_A, req_B]) = [req_A] \<and>
   \<not> in_announced_state (submit_all st_idle [req_A, req_B]) ''b'' \<and>
   request_futures
     (snd (resolve (submit_all st_idle [req_A, req_B]) ''b'' (JStr ''ok'') (JNum 200))) ''b''
     = Some (FResult (JStr ''ok'') (JNum 200)) \<and>
   map_option fst
     (resume (snd (resolve (submit_all st_idle [req_A, req_B]) ''b'' (JStr ''ok'') (JNum 200)))
        ''b'' 0)
     = Some (Inr (JSONResponse (JStr ''ok'') (JNum 200)))"
  by (simp add: submit_def process_next_request_def send_json_def resolve_unfold
      complete_request_def resume_def finally_cleanup_def cleanup_current_request_def
      announced_to_def in_announced_state_def st_idle_def req_A_def req_B_def)


section \<open>Delivery to the consoles\<close>

text \<open>
  \<^verbatim>\<open>broadcast_websocket\<close> tries every socket: the sockets whose send raises leave the
  set, and every other socket of the set receives the message.
\<close>

lemma broadcast_loop_sent:
  "sent (fst (broadcast_loop ev ws s d)) =
     sent s @ map (\<lambda>w. (w, ev)) (filter (\<lambda>w. send_fault s w = None) ws)"
  by (induction ws arbitrary: s d) (auto simp: send_json_def split: option.split)

lemma broadcast_loop_disconnected:
  "set (snd (broadcast_loop ev ws s d)) = set d \<union> {w \<in> set ws. send_fault s w \<noteq> None}"
  by (induction ws arbitrary: s d) (auto simp: send_json_def split: option.split)

lemma broadcast_websocket_clients:
  "websocket_clients (broadcast_websocket s ev) =
     filter (\<lambda>w. send_fault s w = None) (websocket_clients s)"
  by (auto simp: broadcast_websocket_def case_prod_beta broadcast_loop_frame
      broadcast_loop_disconnected intro: filter_cong)

lemma filter_one_distinct:
  "distinct xs \<Longrightarrow> w \<in> set xs \<Longrightarrow> P w \<Longrightarrow> filter (\<lambda>v. P v \<and> v = w) xs = [w]"
  by (induction xs) (auto simp: filter_empty_conv)

lemma broadcast_websocket_delivers:
  assumes "distinct (websocket_clients s)" and "w \<in> set (websocket_clients s)"
    and "send_fault s w = None"
  shows "delivered_to w (broadcast_websocket s ev) = delivered_to w s @ [ev]"
proof -
  have "filter (\<lambda>v. send_fault s v = None \<and> v = w) (websocket_clients s) = [w]"
    using assms by (rule filter_one_distinct)
  then show ?thesis
    by (simp add: delivered_to_def broadcast_websocket_def case_prod_beta broadcast_loop_sent
        filter_map comp_def)
qed

text \<open>
  Claim C3. Every broadcast must try each console on its own, drop only the console whose
  send fails and still reach the others. The send loops of \<^verbatim>\<open>process_next_request\<close>
  (new_request) and of the send_response branch (completed_request) have no
  \<^verbatim>\<open>try\<close>: with two consoles, the first of which raises, the exception leaves the
  function, the second console receives nothing and the failing console stays in the set.
  \<^verbatim>\<open>broadcast_websocket\<close> on the same state delivers to the second console and
  removes the first.
\<close>

theorem unguarded_send_aborts_delivery:
  "fst (process_next_request st_broken) = Some RuntimeError \<and>
   delivered_to 2 (snd (process_next_request st_broken)) = [] \<and>
   websocket_clients (snd (process_next_request st_broken)) = [1, 2] \<and>
   fst (resolve st_AB_broken ''a'' (JStr ''ok'') (JNum 200)) = Some RuntimeError \<and>
   delivered_to 2 (snd (resolve st_AB_broken ''a'' (JStr ''ok'') (JNum 200))) = [] \<and>
   websocket_clients (snd (resolve st_AB_broken ''a'' (JStr ''ok'') (JNum 200))) = [1, 2] \<and>
   delivered_to 2 (broadcast_websocket st_broken (NewRequest req_A)) = [NewRequest req_A] \<and>
   websocket_clients (broadcast_websocket st_broken (NewRequest req_A)) = [2]"
  by (simp add: process_next_request_def resolve_unfold complete_request_def send_json_def
      broadcast_websocket_def delivered_to_def st_broken_def st_AB_broken_def)

section \<open>Malformed operator messages\<close>

text \<open>
  Claim C4. A malformed operator message must be ignored, with the connection left open.
  \<^verbatim>\<open>websocket_endpoint\<close> subscripts the message with the keys type, id and response
  and catches only WebSocketDisconnect: a send_response message without id (or without
  response), or a message without type, raises KeyError, which ends the receive loop of
  that socket; the well-formed message that follows is never read, and the socket stays
  in \<^verbatim>\<open>websocket_clients\<close>. A message of another type is skipped and the loop goes on.
\<close>

theorem malformed_message_ends_receive_loop:
  "receive_loop 1
     [Frame (JObj [(''type'', JStr ''send_response''), (''response'', JStr ''ok'')]),
      Frame (send_response_msg ''a'' (JStr ''ok'') (JNum 200))] st_AB
     = (Crashed (KeyError ''id''), st_AB) \<and>
   receive_loop 1
     [Frame (JObj [(''type'', JStr ''send_response''), (''id'', JStr ''a'')])] st_AB
     = (Crashed (KeyError ''response''), st_AB) \<and>
   receive_loop 1 [Frame (JObj [(''id'', JStr ''a'')])] st_AB
     = (Crashed (KeyError ''type''), st_AB) \<and>
   websocket_clients st_AB = [1] \<and>
   receive_loop 1 [Frame (JObj [(''type'', JStr ''ping'')])] st_AB = (Listening, st_AB)"
  by (simp add: on_message_def on_exception_def st_AB_def)

section \<open>Timeout\<close>

text \<open>
  A call whose future is pending stays suspended until 300 seconds have elapsed. From
  then on it leaves: the future is out of the table, and when the request was the current
  one the slot takes the head of the queue. The answer is the 504 response unless
  \<^verbatim>\<open>process_next_request\<close>, called from the \<^verbatim>\<open>finally\<close> clause, raises.
\<close>

lemma finally_cleanup_futures:
  "request_futures (snd (finally_cleanup s i)) = (request_futures s)(i := None)"
  by (simp add: finally_cleanup_def cleanup_current_request_def process_next_request_frame
      split: option.split)

lemma finally_cleanup_current:
  "current_request s = Some r \<Longrightarrow> rq_id r = i \<Longrightarrow>
     current_request (snd (finally_cleanup s i)) =
       (case pending_requests s of [] \<Rightarrow> None | n # _ \<Rightarrow> Some n) \<and>
     pending_requests (snd (finally_cleanup s i)) = tl (pending_requests s)"
  by (cases "pending_requests s")
     (simp_all add: finally_cleanup_def cleanup_current_request_def process_next_request_def
        Let_def send_each_frame)

lemma resume_before_timeout:
  "request_futures s i = Some FPending \<Longrightarrow> elapsed < timeout_seconds \<Longrightarrow> resume s i elapsed = None"
  by (simp add: resume_def)

lemma resume_timeout:
  assumes "request_futures s i = Some FPending" and "timeout_seconds \<le> elapsed"
  shows "resume s i elapsed =
     Some ((case fst (finally_cleanup (s\<lparr>request_futures := (request_futures s)(i \<mapsto> FCancelled)\<rparr>) i) of
              None \<Rightarrow> Inr (JSONResponse (JObj [(''error'', JStr ''Timeout waiting for mock response'')])
                            (JNum 504))
            | Some e \<Rightarrow> Inl e),
           snd (finally_cleanup (s\<lparr>request_futures := (request_futures s)(i \<mapsto> FCancelled)\<rparr>) i))"
  using assms by (simp add: resume_def split: prod.split option.split)

text \<open>
  Claim C8. A submission with no operator action and no disconnect must end, after 300
  seconds, in the 504 response. It does when every console accepts the announcement of
  the next request. When the timed-out request is the current one, another request waits
  in the queue and a console raises on send, the exception of
  \<^verbatim>\<open>process_next_request\<close> leaves the \<^verbatim>\<open>finally\<close> clause and replaces the 504
  response that was about to be returned.
\<close>

theorem timeout_answer_lost:
  "request_futures st_AB_broken ''a'' = Some FPending \<and>
   current_request st_AB_broken = Some req_A \<and>
   map_option fst (resume st_AB_broken ''a'' 300) = Some (Inl RuntimeError) \<and>
   map_option fst (resume st_AB ''a'' 300) =
     Some (Inr (JSONResponse (JObj [(''error'', JStr ''Timeout waiting for mock response'')])
                  (JNum 504)))"
  by (simp add: resume_def finally_cleanup_def cleanup_current_request_def timeout_seconds_def
      process_next_request_def send_json_def st_AB_broken_def st_AB_def req_A_def)

end
